theory Spec2Isabelle
  imports Main
begin

section \<open>Strings\<close>

text \<open>
  A Python \<open>str\<close> is modelled as a \<^typ>\<open>string\<close>: one \<^typ>\<open>char\<close> per code point, for the
  code points up to 255. \<open>len\<close> is \<^const>\<open>length\<close>.

  \<open>str.strip()\<close> and the regular-expression class \<open>\s\<close> both use the interpreter's
  whitespace test; in this range the whitespace code points are 9 to 13, 28 to 32,
  133 and 160.
\<close>

definition whitespace_chars :: "char list" where
  "whitespace_chars =
     [CHR 0x09, CHR 0x0A, CHR 0x0B, CHR 0x0C, CHR 0x0D,
      CHR 0x1C, CHR 0x1D, CHR 0x1E, CHR 0x1F, CHR 0x20, CHR 0x85, CHR 0xA0]"

definition isspace :: "char \<Rightarrow> bool" where
  "isspace c = (c \<in> set whitespace_chars)"

text \<open>The characters of \<open>'.!?'\<close> (the argument of \<open>rstrip\<close>, and the class \<open>[\.\!\?]\<close>).\<close>

definition is_terminal :: "char \<Rightarrow> bool" where
  "is_terminal c = (c = CHR ''.'' \<or> c = CHR ''!'' \<or> c = CHR ''?'')"

text \<open>The class \<open>[\n;]\<close>.\<close>

definition is_sep :: "char \<Rightarrow> bool" where
  "is_sep c = (c = CHR 0x0A \<or> c = CHR '';'')"

text \<open>\<open>s.rstrip(chars)\<close>, with the set of characters given as a predicate.\<close>

definition rstrip_chars :: "(char \<Rightarrow> bool) \<Rightarrow> string \<Rightarrow> string" where
  "rstrip_chars P s = rev (dropWhile P (rev s))"

text \<open>\<open>s.strip()\<close>: whitespace removed at both ends.\<close>

definition strip :: "string \<Rightarrow> string" where
  "strip s = rstrip_chars isspace (dropWhile isspace s)"

text \<open>\<open>sep.join(xs)\<close>.\<close>

fun join :: "string \<Rightarrow> string list \<Rightarrow> string" where
  "join sep [] = []"
| "join sep [x] = x"
| "join sep (x # y # ys) = x @ sep @ join sep (y # ys)"

text \<open>
  \<open>xs[:n]\<close> for a Python integer \<open>n\<close>: a negative \<open>n\<close> counts from the end.
\<close>

definition py_take :: "int \<Rightarrow> 'a list \<Rightarrow> 'a list" where
  "py_take n xs =
     (if n < 0 then take (nat (int (length xs) + n)) xs else take (nat n) xs)"

section \<open>Bullet splitter\<close>

text \<open>
  \<open>re.split(r'(?<=[\.\!\?])\s+', s)\<close>: a match is a maximal run of whitespace whose
  preceding character is one of \<open>.!?\<close>; the pieces between the matches are returned.
  \<open>cur\<close> is the piece read so far.
\<close>

function split_sentences :: "string \<Rightarrow> string \<Rightarrow> string list" where
  "split_sentences cur [] = [cur]"
| "split_sentences cur (c # cs) =
     (if is_terminal c \<and> (case cs of [] \<Rightarrow> False | d # ds \<Rightarrow> isspace d)
      then (cur @ [c]) # split_sentences [] (dropWhile isspace cs)
      else split_sentences (cur @ [c]) cs)"
  by pat_completeness auto
termination
  by (relation "measure (\<lambda>(cur, s). length s)")
     (auto simp: less_Suc_eq_le length_dropWhile_le)

text \<open>\<open>re.split(r'[\n;]+', s)\<close>: a match is a maximal run of newlines and semicolons.\<close>

function split_seps :: "string \<Rightarrow> string \<Rightarrow> string list" where
  "split_seps cur [] = [cur]"
| "split_seps cur (c # cs) =
     (if is_sep c
      then cur # split_seps [] (dropWhile is_sep cs)
      else split_seps (cur @ [c]) cs)"
  by pat_completeness auto
termination
  by (relation "measure (\<lambda>(cur, s). length s)")
     (auto simp: less_Suc_eq_le length_dropWhile_le)

text \<open>
  \<open>split_to_bullets(text, max_points)\<close>. The sentence units are filtered on the length
  of the stripped unit, before its trailing punctuation is removed.
\<close>

definition split_to_bullets :: "string \<Rightarrow> int \<Rightarrow> string list" where
  "split_to_bullets text max_points =
     (if text = [] then []
      else
        let sentences = split_sentences [] (strip text);
            clean = [rstrip_chars is_terminal (strip s). s \<leftarrow> sentences, 10 < length (strip s)]
        in if length clean = 0
           then
             let parts = split_seps [] text;
                 clean2 = [strip p. p \<leftarrow> parts, 10 < length (strip p)]
             in py_take max_points clean2
           else py_take max_points clean)"

section \<open>Response extractor\<close>

text \<open>
  The value returned by \<open>resp.json()\<close>. A dictionary is the list of its entries, read with
  \<^const>\<open>map_of\<close>; a number is never inspected by the code.
\<close>

datatype json =
    JNull
  | JBool bool
  | JNum int
  | JStr string
  | JList "json list"
  | JDict "(string \<times> json) list"

definition text_keys :: "string list" where
  "text_keys = [''summary_text'', ''generated_text'', ''text'']"

text \<open>
  The loop \<open>for key in (...): if key in d and isinstance(d[key], str): return d[key]\<close>;
  \<open>None\<close> when the loop ends without returning.
\<close>

fun first_text :: "string list \<Rightarrow> (string \<times> json) list \<Rightarrow> string option" where
  "first_text [] d = None"
| "first_text (key # keys) d =
     (case map_of d key of
        Some (JStr s) \<Rightarrow> Some s
      | _ \<Rightarrow> first_text keys d)"

fun extract_summary_from_response :: "json \<Rightarrow> string option" where
  "extract_summary_from_response JNull = None"
| "extract_summary_from_response (JStr s) = Some s"
| "extract_summary_from_response (JList []) = None"
| "extract_summary_from_response (JList (first # rest)) =
     (case first of
        JDict d \<Rightarrow> first_text text_keys d
      | JStr s \<Rightarrow> Some s
      | _ \<Rightarrow> None)"
| "extract_summary_from_response (JDict d) = first_text text_keys d"
| "extract_summary_from_response (JBool b) = None"
| "extract_summary_from_response (JNum n) = None"

text \<open>
  The extraction rules as the specification words them: a plain string is the text; a
  keyed structure gives the text of the first key of the preference list that holds one;
  a sequence gives what these two rules give on its first element; anything else gives
  nothing.
\<close>

definition holds_text :: "(string \<times> json) list \<Rightarrow> string \<Rightarrow> bool" where
  "holds_text d key = (case map_of d key of Some (JStr s) \<Rightarrow> True | _ \<Rightarrow> False)"

definition spec_field_rule :: "(string \<times> json) list \<Rightarrow> string option" where
  "spec_field_rule d =
     (case filter (holds_text d) text_keys of
        [] \<Rightarrow> None
      | key # _ \<Rightarrow> (case map_of d key of Some (JStr s) \<Rightarrow> Some s | _ \<Rightarrow> None))"

definition spec_value_rule :: "json \<Rightarrow> string option" where
  "spec_value_rule v =
     (case v of JStr s \<Rightarrow> Some s | JDict d \<Rightarrow> spec_field_rule d | _ \<Rightarrow> None)"

definition spec_extract :: "json \<Rightarrow> string option" where
  "spec_extract resp =
     (case resp of
        JList [] \<Rightarrow> None
      | JList (first # rest) \<Rightarrow> spec_value_rule first
      | _ \<Rightarrow> spec_value_rule resp)"

section \<open>Effects: exceptions, requests and sleeping\<close>

text \<open>
  The exceptions of the program, all subclasses of \<open>Exception\<close>: those of class
  \<open>requests.exceptions.RequestException\<close>, the \<open>RuntimeError\<close> of \<open>hf_post\<close>, and any other
  exception that a request or the decoding of its body raises.
\<close>

datatype exn =
    RequestException string
  | RuntimeError string
  | OtherException string

fun is_request_exception :: "exn \<Rightarrow> bool" where
  "is_request_exception (RequestException m) = True"
| "is_request_exception (RuntimeError m) = False"
| "is_request_exception (OtherException m) = False"

text \<open>
  The world outside the program: the payloads posted so far and the durations slept so
  far, oldest first. Diagnostic printing is left out.
\<close>

record world =
  posted :: "string list"
  slept :: "nat list"

text \<open>
  A statement either raises or yields a value, and changes the world. An exception passes
  through \<open>bind_prog\<close> and is caught by \<open>try_except\<close>.
\<close>

type_synonym 'a prog = "world \<Rightarrow> (exn + 'a) \<times> world"

definition return_prog :: "'a \<Rightarrow> 'a prog" where
  "return_prog x = (\<lambda>w. (Inr x, w))"

definition raise_prog :: "exn \<Rightarrow> 'a prog" where
  "raise_prog e = (\<lambda>w. (Inl e, w))"

definition bind_prog :: "'a prog \<Rightarrow> ('a \<Rightarrow> 'b prog) \<Rightarrow> 'b prog" where
  "bind_prog m f =
     (\<lambda>w. case m w of (Inl e, w') \<Rightarrow> (Inl e, w') | (Inr x, w') \<Rightarrow> f x w')"

definition try_except :: "'a prog \<Rightarrow> (exn \<Rightarrow> 'a prog) \<Rightarrow> 'a prog" where
  "try_except m handler =
     (\<lambda>w. case m w of (Inl e, w') \<Rightarrow> handler e w' | (Inr x, w') \<Rightarrow> (Inr x, w'))"

text \<open>
  The remote endpoint: what the request numbered \<open>n\<close> (counting from 0) with the given
  payload comes to, once \<open>requests.post\<close>, \<open>raise_for_status\<close> and \<open>json\<close> have run: the
  decoded body, or the exception one of the three raised. A timeout is one of the
  request exceptions.
\<close>

type_synonym remote = "nat \<Rightarrow> string \<Rightarrow> exn + json"

definition http_post :: "remote \<Rightarrow> string \<Rightarrow> json prog" where
  "http_post remote text =
     (\<lambda>w. (remote (length (posted w)) text, w\<lparr>posted := posted w @ [text]\<rparr>))"

definition sleep :: "nat \<Rightarrow> unit prog" where
  "sleep n = (\<lambda>w. (Inr (), w\<lparr>slept := slept w @ [n]\<rparr>))"

section \<open>Remote summarizer client\<close>

text \<open>
  The loop of \<open>hf_post\<close> from \<open>attempt\<close> on. Only a request exception is handled: on the
  last attempt it is raised again, otherwise the program sleeps \<open>backoff ** attempt\<close>
  with \<open>backoff = 2\<close> and goes round. When the range is exhausted without an attempt
  the \<open>RuntimeError\<close> after the loop is raised.
\<close>

function hf_post_loop :: "remote \<Rightarrow> string \<Rightarrow> nat \<Rightarrow> nat \<Rightarrow> json prog" where
  "hf_post_loop remote text max_retries attempt =
     (if max_retries < attempt
      then raise_prog (RuntimeError ''HF post retries exhausted'')
      else try_except (http_post remote text)
             (\<lambda>e. if is_request_exception e
                   then if attempt = max_retries
                        then raise_prog e
                        else bind_prog (sleep (2 ^ attempt))
                               (\<lambda>u. hf_post_loop remote text max_retries (attempt + 1))
                   else raise_prog e))"
  by pat_completeness auto
termination
  by (relation "measure (\<lambda>(remote, text, max_retries, attempt). max_retries + 1 - attempt)")
     auto

definition hf_post :: "remote \<Rightarrow> string \<Rightarrow> nat \<Rightarrow> nat \<Rightarrow> json prog" where
  "hf_post remote text timeout max_retries = hf_post_loop remote text max_retries 1"

section \<open>Deduplicator and final fallback\<close>

text \<open>
  One round of the loop that builds \<open>dedup\<close> and \<open>seen\<close>. An entry is a string, as the
  caller collects them, so \<open>str(t)\<close> is \<open>t\<close>.
\<close>

definition dedup_step :: "string \<Rightarrow> string list \<times> string set \<Rightarrow> string list \<times> string set" where
  "dedup_step t acc =
     (case acc of (dedup, seen) \<Rightarrow>
        let s = strip t
        in if s \<noteq> [] \<and> s \<notin> seen then (dedup @ [s], insert s seen) else (dedup, seen))"

text \<open>The first loop of \<open>summarize_team_tasks\<close>.\<close>

definition dedup_tasks :: "string list \<Rightarrow> string list" where
  "dedup_tasks tasks_list = fst (fold dedup_step tasks_list ([], {}))"

text \<open>
  The deduplicator as the specification words it: the trimmed entries, blanks dropped,
  each kept where it occurs first. Entry \<open>i\<close> is kept when it is not blank and is not
  among the entries before it.
\<close>

definition spec_dedup :: "string list \<Rightarrow> string list" where
  "spec_dedup tasks_list =
     (let trimmed = map strip tasks_list
      in [trimmed ! i. i \<leftarrow> [0 ..< length trimmed],
            trimmed ! i \<noteq> [] \<and> trimmed ! i \<notin> set (take i trimmed)])"

text \<open>
  The loop of \<open>bulletify_tasks\<close>: the same round, and a \<open>break\<close> once \<open>dedup\<close> has
  \<open>max_bullets\<close> entries; the test comes after the round.
\<close>

fun bulletify_loop :: "int \<Rightarrow> string list \<Rightarrow> string list \<times> string set \<Rightarrow> string list" where
  "bulletify_loop max_bullets [] acc = fst acc"
| "bulletify_loop max_bullets (t # ts) acc =
     (let acc' = dedup_step t acc
      in if max_bullets \<le> int (length (fst acc')) then fst acc'
         else bulletify_loop max_bullets ts acc')"

definition bulletify_tasks :: "string list \<Rightarrow> int \<Rightarrow> string list" where
  "bulletify_tasks tasks_list max_bullets = bulletify_loop max_bullets tasks_list ([], {})"

section \<open>Team summarization pipeline\<close>

text \<open>The list \<open>[f"- {p}" for p in points]\<close>.\<close>

definition bullet_lines :: "string list \<Rightarrow> string list" where
  "bullet_lines points = map (\<lambda>p. ''- '' @ p) points"

text \<open>
  The body of the first and of the last \<open>try\<close> block, from the call of \<open>hf_post\<close> on: the
  bullet lines when the block returns from the function, \<open>None\<close> when it falls through
  (no text, an empty text, or no points).
\<close>

definition summarize_stage :: "remote \<Rightarrow> string \<Rightarrow> nat \<Rightarrow> int \<Rightarrow> string list option prog" where
  "summarize_stage remote text max_retries max_points =
     bind_prog (hf_post remote text 120 max_retries)
       (\<lambda>resp. case extract_summary_from_response resp of
                  None \<Rightarrow> return_prog None
                | Some summary_text \<Rightarrow>
                    if summary_text = [] then return_prog None
                    else
                      let points = split_to_bullets summary_text max_points
                      in if points = [] then return_prog None
                         else return_prog (Some (bullet_lines points)))"

text \<open>\<open>chunk_summary or chunk_text[:1000]\<close>.\<close>

definition summary_or :: "string option \<Rightarrow> string \<Rightarrow> string" where
  "summary_or chunk_summary other =
     (case chunk_summary of
        None \<Rightarrow> other
      | Some s \<Rightarrow> if s = [] then other else s)"

text \<open>
  The loop over the chunks, \<open>for i in range(0, len(dedup), chunk_size)\<close> with
  \<open>chunk_size = 10\<close>, from index \<open>i\<close> on. An exception of \<open>hf_post\<close> is caught and the
  joined chunk is appended in place of a summary.
\<close>

function chunk_loop :: "remote \<Rightarrow> string list \<Rightarrow> nat \<Rightarrow> string list \<Rightarrow> string list prog" where
  "chunk_loop remote dedup i chunk_summaries =
     (if i < length dedup
      then
        let chunk = take 10 (drop i dedup);
            chunk_text = join '' . '' chunk
        in bind_prog
             (try_except
                (bind_prog (hf_post remote chunk_text 120 2)
                   (\<lambda>resp.
                      let chunk_summary = extract_summary_from_response resp
                      in return_prog
                           (chunk_summaries @ [summary_or chunk_summary (take 1000 chunk_text)])))
                (\<lambda>e. return_prog (chunk_summaries @ [join '' . '' chunk])))
             (\<lambda>chunk_summaries'. chunk_loop remote dedup (i + 10) chunk_summaries')
      else return_prog chunk_summaries)"
  by pat_completeness auto
termination
  by (relation "measure (\<lambda>(remote, dedup, i, chunk_summaries). length dedup - i)") auto

text \<open>
  \<open>summarize_team_tasks\<close> up to the list of bullet lines that each \<open>return\<close> joins; the
  sentinel \<open>"- No tasks reported."\<close> is the join of its one line.
\<close>

definition summarize_team_bullets :: "remote \<Rightarrow> string list \<Rightarrow> int \<Rightarrow> string list prog" where
  "summarize_team_bullets remote tasks_list max_points =
     (let dedup = dedup_tasks tasks_list
      in if dedup = [] then return_prog [''- No tasks reported.'']
         else
           let joined_len = sum_list (map length dedup)
           in bind_prog
                (try_except
                   (if length dedup \<le> 6 \<and> joined_len < 1200
                    then summarize_stage remote (join '' . '' dedup) 3 max_points
                    else return_prog None)
                   (\<lambda>e. return_prog None))
                (\<lambda>direct.
                   case direct of
                     Some lines \<Rightarrow> return_prog lines
                   | None \<Rightarrow>
                       bind_prog (chunk_loop remote dedup 0 [])
                         (\<lambda>chunk_summaries.
                            bind_prog
                              (try_except
                                 (summarize_stage remote (join '' '' chunk_summaries) 2 max_points)
                                 (\<lambda>e. return_prog None))
                              (\<lambda>final.
                                 case final of
                                   Some lines \<Rightarrow> return_prog lines
                                 | None \<Rightarrow>
                                     return_prog
                                       (bullet_lines (bulletify_tasks dedup max_points))))))"

definition summarize_team_tasks :: "remote \<Rightarrow> string list \<Rightarrow> int \<Rightarrow> string prog" where
  "summarize_team_tasks remote tasks_list max_points =
     bind_prog (summarize_team_bullets remote tasks_list max_points)
       (\<lambda>lines. return_prog (join [CHR 0x0A] lines))"

section \<open>Properties of the string operations\<close>

declare hf_post_loop.simps [simp del]
declare chunk_loop.simps [simp del]

lemma rstrip_chars_prefix: "\<exists>k. rstrip_chars P s = take k s"
proof -
  obtain n where "dropWhile P (rev s) = drop n (rev s)"
    by (metis dropWhile_eq_drop)
  then have "rstrip_chars P s = take (length s - n) s"
    by (simp add: rstrip_chars_def rev_drop)
  then show ?thesis ..
qed

lemma rstrip_chars_last: "rstrip_chars P s \<noteq> [] \<Longrightarrow> \<not> P (last (rstrip_chars P s))"
  unfolding rstrip_chars_def
  by (simp add: last_rev hd_dropWhile)

lemma rstrip_chars_hd: "rstrip_chars P s \<noteq> [] \<Longrightarrow> hd (rstrip_chars P s) = hd s"
proof -
  assume ne: "rstrip_chars P s \<noteq> []"
  obtain k where k: "rstrip_chars P s = take k s"
    using rstrip_chars_prefix by blast
  with ne have "0 < k" by (cases k) auto
  then show ?thesis using k by simp
qed

lemma rstrip_chars_id: "s = [] \<or> \<not> P (last s) \<Longrightarrow> rstrip_chars P s = s"
  unfolding rstrip_chars_def
  by (cases "rev s") (auto simp: last_rev)

lemma strip_hd: "strip s \<noteq> [] \<Longrightarrow> \<not> isspace (hd (strip s))"
  unfolding strip_def
  by (metis rstrip_chars_hd hd_dropWhile rstrip_chars_def rev.simps(1) dropWhile.simps(1))

lemma strip_last: "strip s \<noteq> [] \<Longrightarrow> \<not> isspace (last (strip s))"
  unfolding strip_def by (rule rstrip_chars_last)

lemma strip_id: "s = [] \<or> (\<not> isspace (hd s) \<and> \<not> isspace (last s)) \<Longrightarrow> strip s = s"
proof (cases s)
  case Nil
  then show ?thesis by (simp add: strip_def rstrip_chars_def)
next
  case (Cons a list)
  assume "s = [] \<or> (\<not> isspace (hd s) \<and> \<not> isspace (last s))"
  with Cons have a: "\<not> isspace a" and l: "\<not> isspace (last s)" by auto
  from a Cons have "dropWhile isspace s = s" by simp
  moreover from l have "rstrip_chars isspace s = s" by (simp add: rstrip_chars_id)
  ultimately show ?thesis by (simp add: strip_def)
qed

lemma strip_idem: "strip (strip s) = strip s"
  using strip_id strip_hd strip_last by blast


lemma length_py_take: "0 \<le> n \<Longrightarrow> length (py_take n xs) \<le> nat n"
  unfolding py_take_def by simp

section \<open>Properties of the bullet splitter\<close>

text \<open>
  Claim C5, as the code has it. Each of the three sentences of \<open>"Did A. Did B! Did C?"\<close>
  has 6 characters, which is not more than 10, so the sentence split keeps none of them;
  the text has no newline and no semicolon, so the second split returns it whole, and
  \<open>split_to_bullets\<close> with \<open>max_points = 5\<close> returns the one bullet
  \<open>"Did A. Did B! Did C?"\<close>, punctuation kept.
\<close>

theorem split_to_bullets_did_abc:
  "split_to_bullets ''Did A. Did B! Did C?'' 5 = [''Did A. Did B! Did C?'']"
  by (simp add: split_to_bullets_def strip_def rstrip_chars_def isspace_def
      whitespace_chars_def is_terminal_def is_sep_def py_take_def)

text \<open>
  Claim C5, as stated, fails: the result is not the list of the three bullets
  \<open>"Did A"\<close>, \<open>"Did B"\<close>, \<open>"Did C"\<close>.
\<close>

theorem split_to_bullets_did_abc_counterexample:
  "split_to_bullets ''Did A. Did B! Did C?'' 5 \<noteq> [''Did A'', ''Did B'', ''Did C'']"
  by (simp add: split_to_bullets_def strip_def rstrip_chars_def isspace_def
      whitespace_chars_def is_terminal_def is_sep_def py_take_def)











section \<open>Properties of the response extractor\<close>

lemma first_text_spec: "first_text text_keys d = spec_field_rule d"
  by (simp add: text_keys_def spec_field_rule_def holds_text_def
      split: option.splits json.splits)

text \<open>
  Claim C8. For every response value the extractor returns what the stated rules select:
  the string itself; for a sequence, what the string and field rules give on its first
  element; for a keyed structure, the text under the first key of
  \<open>summary_text\<close>, \<open>generated_text\<close>, \<open>text\<close> that holds one; and nothing for every other
  value. The extractor is a total function with no raising branch. In particular a
  keyed structure with a text under \<open>summary_text\<close> gives that text, alone or as the
  first element of a sequence, and a bare string gives itself.
\<close>

theorem extract_summary_from_response_rules:
  "extract_summary_from_response resp = spec_extract resp
   \<and> extract_summary_from_response (JStr s) = Some s
   \<and> (map_of d ''summary_text'' = Some (JStr s) \<longrightarrow>
        extract_summary_from_response (JDict d) = Some s
        \<and> extract_summary_from_response (JList (JDict d # rest)) = Some s)
   \<and> extract_summary_from_response JNull = None
   \<and> extract_summary_from_response (JBool b) = None
   \<and> extract_summary_from_response (JNum n) = None
   \<and> extract_summary_from_response (JList []) = None
   \<and> extract_summary_from_response (JList (JList xs # rest)) = None
   \<and> extract_summary_from_response (JDict []) = None"
proof -
  have "extract_summary_from_response resp = spec_extract resp"
    by (cases resp rule: extract_summary_from_response.cases)
       (simp_all add: spec_extract_def spec_value_rule_def first_text_spec split: json.splits)
  then show ?thesis
    by (simp add: text_keys_def)
qed

theorem extract_summary_from_response_rules_witness:
  "map_of [(''summary_text'', JStr ''Two bugs fixed''), (''text'', JStr ''other'')]
      ''summary_text'' = Some (JStr ''Two bugs fixed'')
   \<and> extract_summary_from_response
        (JDict [(''summary_text'', JStr ''Two bugs fixed''), (''text'', JStr ''other'')]) =
      Some ''Two bugs fixed''
   \<and> extract_summary_from_response
        (JList [JDict [(''summary_text'', JStr ''Two bugs fixed''), (''text'', JStr ''other'')]]) =
      Some ''Two bugs fixed''"
  using extract_summary_from_response_rules
    [of JNull "''Two bugs fixed''"
        "[(''summary_text'', JStr ''Two bugs fixed''), (''text'', JStr ''other'')]" "[]"]
  by simp

section \<open>Properties of the remote summarizer client\<close>

lemma hf_post_loop_exhausted:
  "max_retries < attempt \<Longrightarrow>
   hf_post_loop remote text max_retries attempt w =
     (Inl (RuntimeError ''HF post retries exhausted''), w)"
  by (subst hf_post_loop.simps) (simp add: raise_prog_def)

lemma hf_post_loop_success:
  "attempt \<le> max_retries \<Longrightarrow> remote (length (posted w)) text = Inr j \<Longrightarrow>
   hf_post_loop remote text max_retries attempt w = (Inr j, w\<lparr>posted := posted w @ [text]\<rparr>)"
  by (subst hf_post_loop.simps) (simp add: try_except_def http_post_def)

lemma hf_post_loop_retry:
  "attempt < max_retries \<Longrightarrow> remote (length (posted w)) text = Inl (RequestException m) \<Longrightarrow>
   attempt' = attempt + 1 \<Longrightarrow> d = 2 ^ attempt \<Longrightarrow>
   hf_post_loop remote text max_retries attempt w =
     hf_post_loop remote text max_retries attempt'
       (w\<lparr>posted := posted w @ [text], slept := slept w @ [d]\<rparr>)"
  by (subst hf_post_loop.simps)
     (simp add: try_except_def http_post_def bind_prog_def sleep_def)

lemma hf_post_loop_last:
  "remote (length (posted w)) text = Inl (RequestException m) \<Longrightarrow>
   hf_post_loop remote text max_retries max_retries w =
     (Inl (RequestException m), w\<lparr>posted := posted w @ [text]\<rparr>)"
  by (subst hf_post_loop.simps)
     (simp add: try_except_def http_post_def raise_prog_def)

text \<open>
  Claim C4. With \<open>max_retries = 3\<close>, when the first two requests fail with a request
  exception: if the third request succeeds, \<open>hf_post\<close> returns its decoded body; if the
  third fails with a request exception too, \<open>hf_post\<close> raises that exception to its caller
  and returns nothing. In both cases three requests were posted and the program slept
  \<open>2 ** 1 = 2\<close> after the first failure and \<open>2 ** 2 = 4\<close> after the second, and not after
  the third.
\<close>

theorem hf_post_three_attempts:
  assumes f1: "remote (length (posted w)) text = Inl (RequestException m1)"
    and f2: "remote (length (posted w) + 1) text = Inl (RequestException m2)"
  shows "(remote (length (posted w) + 2) text = Inr j \<longrightarrow>
            hf_post remote text timeout 3 w =
              (Inr j, w\<lparr>posted := posted w @ [text, text, text], slept := slept w @ [2, 4]\<rparr>))
       \<and> (remote (length (posted w) + 2) text = Inl (RequestException m3) \<longrightarrow>
            hf_post remote text timeout 3 w =
              (Inl (RequestException m3),
               w\<lparr>posted := posted w @ [text, text, text], slept := slept w @ [2, 4]\<rparr>))"
proof -
  let ?w1 = "w\<lparr>posted := posted w @ [text], slept := slept w @ [2]\<rparr>"
  let ?w2 = "?w1\<lparr>posted := posted ?w1 @ [text], slept := slept ?w1 @ [4]\<rparr>"
  let ?w3 = "w\<lparr>posted := posted w @ [text, text, text], slept := slept w @ [2, 4]\<rparr>"
  have s1: "hf_post_loop remote text 3 1 w = hf_post_loop remote text 3 2 ?w1"
    by (rule hf_post_loop_retry [where m = m1]) (use f1 in simp_all)
  have s2: "hf_post_loop remote text 3 2 ?w1 = hf_post_loop remote text 3 3 ?w2"
    by (rule hf_post_loop_retry [where m = m2]) (use f2 in simp_all)
  have w3: "?w2\<lparr>posted := posted ?w2 @ [text]\<rparr> = ?w3" by simp
  have ok: "hf_post_loop remote text 3 3 ?w2 = (Inr j, ?w3)"
    if "remote (length (posted w) + 2) text = Inr j"
    unfolding w3 [symmetric] by (rule hf_post_loop_success) (use that in simp_all)
  have bad: "hf_post_loop remote text 3 3 ?w2 = (Inl (RequestException m3), ?w3)"
    if "remote (length (posted w) + 2) text = Inl (RequestException m3)"
    unfolding w3 [symmetric] by (rule hf_post_loop_last) (use that in simp)
  show ?thesis
    unfolding hf_post_def s1 s2 using ok bad by blast
qed

theorem hf_post_three_attempts_witness:
  "hf_post (\<lambda>n t. if n < 2 then Inl (RequestException ''timeout'') else Inr (JStr ''done''))
      ''abc'' 120 3 \<lparr>posted = [], slept = []\<rparr> =
     (Inr (JStr ''done''), \<lparr>posted = [''abc'', ''abc'', ''abc''], slept = [2, 4]\<rparr>)
   \<and> hf_post (\<lambda>n t. Inl (RequestException ''timeout''))
      ''abc'' 120 3 \<lparr>posted = [], slept = []\<rparr> =
     (Inl (RequestException ''timeout''), \<lparr>posted = [''abc'', ''abc'', ''abc''], slept = [2, 4]\<rparr>)"
  using hf_post_three_attempts
      [of "\<lambda>n t. if n < 2 then Inl (RequestException ''timeout'') else Inr (JStr ''done'')"
        "\<lparr>posted = [], slept = []\<rparr>" "''abc''" "''timeout''" "''timeout''" "JStr ''done''"
        120 "''x''"]
    hf_post_three_attempts
      [of "\<lambda>n t. Inl (RequestException ''timeout'')"
        "\<lparr>posted = [], slept = []\<rparr>" "''abc''" "''timeout''" "''timeout''" "JStr ''done''"
        120 "''timeout''"]
  by simp

section \<open>Properties of the deduplicator\<close>

lemma dedup_fold_snoc:
  "fold dedup_step (ts @ [t]) acc = dedup_step t (fold dedup_step ts acc)"
  by simp

lemma dedup_fold_inv:
  "snd (fold dedup_step ts ([], {})) = set (fst (fold dedup_step ts ([], {})))
   \<and> distinct (fst (fold dedup_step ts ([], {})))
   \<and> set (fst (fold dedup_step ts ([], {}))) = {s \<in> strip ` set ts. s \<noteq> []}"
proof (induction ts rule: rev_induct)
  case Nil
  then show ?case by simp
next
  case (snoc t ts)
  obtain d seen where acc: "fold dedup_step ts ([], {}) = (d, seen)"
    by (cases "fold dedup_step ts ([], {})")
  with snoc have inv: "seen = set d" "distinct d" "set d = {s \<in> strip ` set ts. s \<noteq> []}"
    by simp_all
  show ?case
    unfolding dedup_fold_snoc acc using inv
    by (auto simp: dedup_step_def Let_def)
qed

lemma dedup_tasks_snoc:
  "dedup_tasks (ts @ [t]) =
     dedup_tasks ts @ (if strip t \<noteq> [] \<and> strip t \<notin> strip ` set ts then [strip t] else [])"
proof -
  obtain d seen where acc: "fold dedup_step ts ([], {}) = (d, seen)"
    by (cases "fold dedup_step ts ([], {})")
  with dedup_fold_inv [of ts]
  have inv: "seen = set d" "set d = {s \<in> strip ` set ts. s \<noteq> []}"
    by simp_all
  show ?thesis
    unfolding dedup_tasks_def dedup_fold_snoc acc using inv
    by (auto simp: dedup_step_def Let_def)
qed

lemma spec_dedup_snoc:
  "spec_dedup (ts @ [t]) =
     spec_dedup ts @ (if strip t \<noteq> [] \<and> strip t \<notin> strip ` set ts then [strip t] else [])"
proof -
  let ?tr = "map strip ts"
  let ?tr' = "map strip (ts @ [t])"
  let ?g = "\<lambda>tr i. if tr ! i \<noteq> [] \<and> tr ! i \<notin> set (take i tr) then [tr ! i] else []"
  have len: "length ?tr' = Suc (length ts)" "length ?tr = length ts"
    by simp_all
  have old: "map (?g ?tr') [0 ..< length ts] = map (?g ?tr) [0 ..< length ts]"
    by (rule map_cong) (simp_all add: nth_append)
  have new: "?g ?tr' (length ts) =
      (if strip t \<noteq> [] \<and> strip t \<notin> strip ` set ts then [strip t] else [])"
    by (simp add: nth_append)
  have "spec_dedup (ts @ [t]) = concat (map (?g ?tr') [0 ..< Suc (length ts)])"
    unfolding spec_dedup_def Let_def len ..
  also have "\<dots> = concat (map (?g ?tr') [0 ..< length ts]) @ ?g ?tr' (length ts)"
    by (simp only: upt_Suc_append le0 map_append concat_append list.map concat.simps append_Nil2)
  also have "\<dots> = concat (map (?g ?tr) [0 ..< length ts]) @ ?g ?tr' (length ts)"
    unfolding old ..
  also have "concat (map (?g ?tr) [0 ..< length ts]) = spec_dedup ts"
    unfolding spec_dedup_def Let_def len ..
  finally show ?thesis
    unfolding new .
qed

lemma dedup_tasks_spec: "dedup_tasks ts = spec_dedup ts"
proof (induction ts rule: rev_induct)
  case Nil
  show ?case by (simp add: dedup_tasks_def spec_dedup_def)
next
  case (snoc t ts)
  then show ?case by (simp only: dedup_tasks_snoc spec_dedup_snoc)
qed

lemma dedup_tasks_distinct: "distinct (dedup_tasks ts)"
  using dedup_fold_inv [of ts] by (simp add: dedup_tasks_def)

lemma dedup_tasks_set: "set (dedup_tasks ts) = {s \<in> strip ` set ts. s \<noteq> []}"
  using dedup_fold_inv [of ts] by (simp add: dedup_tasks_def)

lemma dedup_tasks_trimmed: "s \<in> set (dedup_tasks ts) \<Longrightarrow> s \<noteq> [] \<and> strip s = s"
  by (auto simp: dedup_tasks_set strip_idem)


text \<open>
  Claim C9. For every input list the deduplicator returns a list without repeated values,
  whose entries are non-empty and trimmed (no whitespace at either end); the values are
  the non-blank trimmed entries of the input; they stand in the order of their first
  occurrences, entry \<open>i\<close> being kept when it is not blank and not among the entries before
  it; the empty input gives the empty output. The function is total and has no error
  branch.
\<close>

theorem dedup_tasks_unique_ordered:
  "distinct (dedup_tasks tasks_list)
   \<and> (\<forall>s \<in> set (dedup_tasks tasks_list).
         s \<noteq> [] \<and> strip s = s \<and> \<not> isspace (hd s) \<and> \<not> isspace (last s))
   \<and> set (dedup_tasks tasks_list) = {s \<in> strip ` set tasks_list. s \<noteq> []}
   \<and> dedup_tasks tasks_list = spec_dedup tasks_list
   \<and> dedup_tasks [] = []"
proof -
  have trimmed: "s \<noteq> [] \<and> strip s = s \<and> \<not> isspace (hd s) \<and> \<not> isspace (last s)"
    if "s \<in> set (dedup_tasks tasks_list)" for s
    using dedup_tasks_trimmed [OF that] strip_hd [of s] strip_last [of s] by simp
  have empty: "dedup_tasks [] = []"
    by (simp add: dedup_tasks_def)
  show ?thesis
    using trimmed empty dedup_tasks_distinct [of tasks_list] dedup_tasks_set [of tasks_list]
      dedup_tasks_spec [of tasks_list]
    by blast
qed

theorem dedup_tasks_unique_ordered_witness:
  "dedup_tasks [''b'', '' a '', ''b'', '''', ''a'', ''  '', ''c ''] = [''b'', ''a'', ''c'']
   \<and> spec_dedup [''b'', '' a '', ''b'', '''', ''a'', ''  '', ''c ''] = [''b'', ''a'', ''c'']
   \<and> distinct [''b'', ''a'', ''c'']"
proof -
  have run: "dedup_tasks [''b'', '' a '', ''b'', '''', ''a'', ''  '', ''c ''] = [''b'', ''a'', ''c'']"
    by (simp add: dedup_tasks_def dedup_step_def Let_def strip_def rstrip_chars_def isspace_def
        whitespace_chars_def)
  have "spec_dedup [''b'', '' a '', ''b'', [], ''a'', ''  '', ''c ''] =
      dedup_tasks [''b'', '' a '', ''b'', [], ''a'', ''  '', ''c '']"
    using dedup_tasks_unique_ordered [of "[''b'', '' a '', ''b'', [], ''a'', ''  '', ''c '']"]
    by simp
  with run show ?thesis by simp
qed

section \<open>Properties of the pipeline\<close>

text \<open>
  Claim C3. For the empty task list \<open>summarize_team_tasks\<close> returns the sentinel
  \<open>"- No tasks reported."\<close> and leaves the world as it was: no request is posted and
  nothing is slept.
\<close>

theorem summarize_team_tasks_empty:
  "summarize_team_tasks remote [] max_points w = (Inr ''- No tasks reported.'', w)"
  by (simp add: summarize_team_tasks_def summarize_team_bullets_def dedup_tasks_def
      bind_prog_def return_prog_def)

lemma dedup_tasks_all_blank: "\<forall>t \<in> set ts. strip t = [] \<Longrightarrow> dedup_tasks ts = []"
proof -
  assume "\<forall>t \<in> set ts. strip t = []"
  then have "set (dedup_tasks ts) = {}"
    unfolding dedup_tasks_set by auto
  then show ?thesis by simp
qed

text \<open>
  Claim C10. For a non-empty task list whose entries are all blank (empty once trimmed),
  \<open>summarize_team_tasks\<close> returns the sentinel \<open>"- No tasks reported."\<close>, as for the empty
  list, and leaves the world as it was: no request is posted. The test is on the
  deduplicated trimmed entries, not on the length of the list.
\<close>

theorem summarize_team_tasks_all_blank:
  assumes "tasks_list \<noteq> []" and "\<forall>t \<in> set tasks_list. strip t = []"
  shows "summarize_team_tasks remote tasks_list max_points w = (Inr ''- No tasks reported.'', w)"
  using dedup_tasks_all_blank [OF assms(2)]
  by (simp add: summarize_team_tasks_def summarize_team_bullets_def bind_prog_def return_prog_def)

theorem summarize_team_tasks_all_blank_witness:
  "summarize_team_tasks (\<lambda>n t. Inr (JStr ''A summary that is never asked for.''))
      ['' '', [], [CHR 0x09, CHR 0x20], [CHR 0x0A]] 5 \<lparr>posted = [], slept = []\<rparr> =
     (Inr ''- No tasks reported.'', \<lparr>posted = [], slept = []\<rparr>)"
proof -
  have blank: "\<forall>t \<in> set ['' '', [], [CHR 0x09, CHR 0x20], [CHR 0x0A]]. strip t = []"
    by (simp add: strip_def rstrip_chars_def isspace_def whitespace_chars_def)
  show ?thesis
    by (rule summarize_team_tasks_all_blank [OF _ blank]) simp
qed

lemma try_return_total:
  "\<exists>x w'. try_except m (\<lambda>e. return_prog d) w = (Inr x, w')"
  by (cases "m w") (auto simp: try_except_def return_prog_def split: sum.splits)

lemma chunk_loop_total:
  "\<exists>cs w'. chunk_loop remote dedup i chunk_summaries w = (Inr cs, w')"
proof (induction remote dedup i chunk_summaries arbitrary: w rule: chunk_loop.induct)
  case (1 remote dedup i chunk_summaries)
  show ?case
  proof (cases "i < length dedup")
    case False
    then show ?thesis
      by (subst chunk_loop.simps) (simp add: return_prog_def)
  next
    case True
    let ?chunk = "take 10 (drop i dedup)"
    let ?chunk_text = "join '' . '' ?chunk"
    let ?body = "try_except
                (bind_prog (hf_post remote ?chunk_text 120 2)
                   (\<lambda>resp.
                      let chunk_summary = extract_summary_from_response resp
                      in return_prog
                           (chunk_summaries @ [summary_or chunk_summary (take 1000 ?chunk_text)])))
                (\<lambda>e. return_prog (chunk_summaries @ [join '' . '' ?chunk]))"
    obtain cs w1 where body: "?body w = (Inr cs, w1)"
      using try_return_total [where w = w] by fast
    obtain cs' w' where "chunk_loop remote dedup (i + 10) cs w1 = (Inr cs', w')"
      using "1.IH" [OF True refl refl, of cs w1] by blast
    then show ?thesis
      using True body
      by (subst chunk_loop.simps) (simp add: bind_prog_def Let_def)
  qed
qed

text \<open>
  Claim C2. For every task list, every maximum point count, every behaviour of the remote
  endpoint and every world, \<open>summarize_team_tasks\<close> returns a summary and does not raise:
  the exceptions of \<open>hf_post\<close> in the direct call, in each chunk and in the combine call
  are caught by their \<open>except Exception\<close> handlers, and the program goes on to the next
  stage.
\<close>

theorem summarize_team_tasks_never_raises:
  "\<exists>summary w'. summarize_team_tasks remote tasks_list max_points w = (Inr summary, w')"
proof -
  have "\<exists>ls w'. summarize_team_bullets remote tasks_list max_points w = (Inr ls, w')"
  proof (cases "dedup_tasks tasks_list = []")
    case True
    then show ?thesis
      by (simp add: summarize_team_bullets_def return_prog_def)
  next
    case False
    let ?dedup = "dedup_tasks tasks_list"
    let ?direct = "try_except
                   (if length ?dedup \<le> 6 \<and> sum_list (map length ?dedup) < 1200
                    then summarize_stage remote (join '' . '' ?dedup) 3 max_points
                    else return_prog None)
                   (\<lambda>e. return_prog None)"
    obtain direct w1 where d: "?direct w = (Inr direct, w1)"
      using try_return_total [where w = w] by fast
    obtain cs w2 where c: "chunk_loop remote ?dedup 0 [] w1 = (Inr cs, w2)"
      using chunk_loop_total by blast
    obtain final w3 where f: "try_except (summarize_stage remote (join '' '' cs) 2 max_points)
                                 (\<lambda>e. return_prog None) w2 = (Inr final, w3)"
      using try_return_total [where w = w2] by fast
    show ?thesis
      using False d c f
      by (simp add: summarize_team_bullets_def Let_def bind_prog_def return_prog_def
          split: option.splits)
  qed
  then show ?thesis
    by (auto simp: summarize_team_tasks_def bind_prog_def return_prog_def)
qed

lemma split_to_bullets_length:
  "0 \<le> max_points \<Longrightarrow> length (split_to_bullets text max_points) \<le> nat max_points"
  by (simp add: split_to_bullets_def Let_def length_py_take)

lemma summarize_stage_lines:
  assumes "summarize_stage remote text max_retries max_points w = (Inr (Some ls), w')"
    and "1 \<le> max_points"
  shows "ls \<noteq> [] \<and> int (length ls) \<le> max_points"
proof -
  from assms(1) obtain summary_text where
    ls: "ls = bullet_lines (split_to_bullets summary_text max_points)"
    and ne: "split_to_bullets summary_text max_points \<noteq> []"
    by (auto simp: summarize_stage_def bind_prog_def return_prog_def Let_def
        split: prod.splits sum.splits option.splits if_splits)
  have "length (split_to_bullets summary_text max_points) \<le> nat max_points"
    using assms(2) by (intro split_to_bullets_length) simp
  with ne assms(2) show ?thesis
    by (simp add: ls bullet_lines_def)
qed

lemma try_return_None_Some:
  "try_except m (\<lambda>e. return_prog None) w = (Inr (Some x), w') \<Longrightarrow> m w = (Inr (Some x), w')"
  by (auto simp: try_except_def return_prog_def split: prod.splits sum.splits)

lemma dedup_step_length:
  "length (fst acc) \<le> length (fst (dedup_step t acc))
   \<and> length (fst (dedup_step t acc)) \<le> Suc (length (fst acc))"
  by (cases acc) (simp add: dedup_step_def Let_def)

lemma bulletify_loop_upper:
  "int (length (fst acc)) < max_bullets \<Longrightarrow>
   int (length (bulletify_loop max_bullets ts acc)) \<le> max_bullets"
proof (induction ts arbitrary: acc)
  case Nil
  then show ?case by simp
next
  case (Cons t ts)
  have "length (fst (dedup_step t acc)) \<le> Suc (length (fst acc))"
    using dedup_step_length by blast
  with Cons.prems have le: "int (length (fst (dedup_step t acc))) \<le> max_bullets"
    by linarith
  show ?case
  proof (cases "max_bullets \<le> int (length (fst (dedup_step t acc)))")
    case True
    with le show ?thesis by (simp add: Let_def)
  next
    case False
    then have "int (length (fst (dedup_step t acc))) < max_bullets" by simp
    from Cons.IH [OF this] False show ?thesis by (simp add: Let_def)
  qed
qed

lemma bulletify_loop_lower:
  "length (fst acc) \<le> length (bulletify_loop max_bullets ts acc)"
proof (induction ts arbitrary: acc)
  case Nil
  then show ?case by simp
next
  case (Cons t ts)
  have "length (fst acc) \<le> length (fst (dedup_step t acc))"
    using dedup_step_length by blast
  moreover have "length (fst (dedup_step t acc)) \<le>
      length (bulletify_loop max_bullets ts (dedup_step t acc))"
    by (rule Cons.IH)
  ultimately show ?case by (simp add: Let_def)
qed

lemma bulletify_tasks_count:
  assumes "dedup_tasks tasks_list \<noteq> []" and "1 \<le> max_bullets"
  shows "1 \<le> length (bulletify_tasks (dedup_tasks tasks_list) max_bullets)
         \<and> int (length (bulletify_tasks (dedup_tasks tasks_list) max_bullets)) \<le> max_bullets"
proof -
  obtain s rest where d: "dedup_tasks tasks_list = s # rest"
    using assms(1) by (cases "dedup_tasks tasks_list") auto
  then have "s \<in> set (dedup_tasks tasks_list)" by simp
  then have s: "s \<noteq> []" "strip s = s"
    using dedup_tasks_trimmed by blast+
  then have step: "dedup_step s ([], {}) = ([s], {s})"
    by (simp add: dedup_step_def)
  have "1 \<le> length (bulletify_loop max_bullets (s # rest) ([], {}))"
    using bulletify_loop_lower [of "([s], {s})" max_bullets rest]
    by (simp add: step Let_def)
  moreover have "int (length (bulletify_loop max_bullets (s # rest) ([], {}))) \<le> max_bullets"
    by (rule bulletify_loop_upper) (use assms(2) in simp)
  ultimately show ?thesis
    by (simp add: bulletify_tasks_def d)
qed


lemma bind_prog_Inr: "m w = (Inr x, w') \<Longrightarrow> bind_prog m f w = f x w'"
  by (simp add: bind_prog_def)

lemma bind_prog_Inl: "m w = (Inl e, w') \<Longrightarrow> bind_prog m f w = (Inl e, w')"
  by (simp add: bind_prog_def)

lemma summarize_team_bullets_nonempty:
  assumes "dedup_tasks tasks_list \<noteq> []"
  shows "summarize_team_bullets remote tasks_list max_points w =
     bind_prog
       (try_except
          (if length (dedup_tasks tasks_list) \<le> 6
               \<and> sum_list (map length (dedup_tasks tasks_list)) < 1200
           then summarize_stage remote (join '' . '' (dedup_tasks tasks_list)) 3 max_points
           else return_prog None)
          (\<lambda>e. return_prog None))
       (\<lambda>direct.
          case direct of
            Some lines \<Rightarrow> return_prog lines
          | None \<Rightarrow>
              bind_prog (chunk_loop remote (dedup_tasks tasks_list) 0 [])
                (\<lambda>chunk_summaries.
                   bind_prog
                     (try_except
                        (summarize_stage remote (join '' '' chunk_summaries) 2 max_points)
                        (\<lambda>e. return_prog None))
                     (\<lambda>final.
                        case final of
                          Some lines \<Rightarrow> return_prog lines
                        | None \<Rightarrow>
                            return_prog
                              (bullet_lines
                                 (bulletify_tasks (dedup_tasks tasks_list) max_points))))) w"
  unfolding summarize_team_bullets_def Let_def using assms by (simp only: if_False)

text \<open>
  Claim C1. For every non-empty task list and every maximum point count of at least 1, in
  particular 5, \<open>summarize_team_tasks\<close> returns the join of a list of bullet lines that
  has at least one line and at most \<open>max_points\<close> lines, whichever return statement is
  reached: the sentinel, the direct call, the combine call after the chunks, or the final
  fallback.
\<close>

theorem summarize_team_tasks_bullet_count:
  assumes "tasks_list \<noteq> []" and "1 \<le> max_points"
  shows "\<exists>ls w'. summarize_team_bullets remote tasks_list max_points w = (Inr ls, w')
           \<and> summarize_team_tasks remote tasks_list max_points w = (Inr (join [CHR 0x0A] ls), w')
           \<and> 1 \<le> length ls \<and> int (length ls) \<le> max_points"
proof -
  have "\<exists>ls w'. summarize_team_bullets remote tasks_list max_points w = (Inr ls, w')
           \<and> 1 \<le> length ls \<and> int (length ls) \<le> max_points"
  proof (cases "dedup_tasks tasks_list = []")
    case True
    then show ?thesis
      using assms(2) by (simp add: summarize_team_bullets_def return_prog_def)
  next
    case False
    let ?dedup = "dedup_tasks tasks_list"
    let ?stage1 = "if length ?dedup \<le> 6 \<and> sum_list (map length ?dedup) < 1200
                    then summarize_stage remote (join '' . '' ?dedup) 3 max_points
                    else return_prog None"
    obtain direct w1 where d: "try_except ?stage1 (\<lambda>e. return_prog None) w = (Inr direct, w1)"
      using try_return_total [where w = w] by fast
    show ?thesis
    proof (cases direct)
      case (Some ls)
      with d have "try_except ?stage1 (\<lambda>e. return_prog None) w = (Inr (Some ls), w1)"
        by simp
      then have "?stage1 w = (Inr (Some ls), w1)"
        by (rule try_return_None_Some)
      then have "summarize_stage remote (join '' . '' ?dedup) 3 max_points w = (Inr (Some ls), w1)"
        by (simp add: return_prog_def split: if_splits)
      from summarize_stage_lines [OF this assms(2)] have "1 \<le> length ls \<and> int (length ls) \<le> max_points"
        by (cases ls) simp_all
      then show ?thesis
        unfolding summarize_team_bullets_nonempty [OF False] using d Some
        by (simp add: bind_prog_def return_prog_def)
    next
      case None
      obtain cs w2 where c: "chunk_loop remote ?dedup 0 [] w1 = (Inr cs, w2)"
        using chunk_loop_total by blast
      let ?stage2 = "summarize_stage remote (join '' '' cs) 2 max_points"
      obtain final w3 where f: "try_except ?stage2 (\<lambda>e. return_prog None) w2 = (Inr final, w3)"
        using try_return_total [where w = w2] by fast
      show ?thesis
      proof (cases final)
        case (Some ls)
        with f have "try_except ?stage2 (\<lambda>e. return_prog None) w2 = (Inr (Some ls), w3)"
          by simp
        then have "?stage2 w2 = (Inr (Some ls), w3)"
          by (rule try_return_None_Some)
        from summarize_stage_lines [OF this assms(2)]
        have "1 \<le> length ls \<and> int (length ls) \<le> max_points"
          by (cases ls) simp_all
        then show ?thesis
          unfolding summarize_team_bullets_nonempty [OF False] using d None c f Some
          by (simp add: bind_prog_def return_prog_def)
      next
        case final_None: None
        have "1 \<le> length (bullet_lines (bulletify_tasks ?dedup max_points))
            \<and> int (length (bullet_lines (bulletify_tasks ?dedup max_points))) \<le> max_points"
          using bulletify_tasks_count [OF False assms(2)] by (simp add: bullet_lines_def)
        then show ?thesis
          unfolding summarize_team_bullets_nonempty [OF False] using d None c f final_None
          by (simp add: bind_prog_def return_prog_def)
      qed
    qed
  qed
  then show ?thesis
    by (auto simp: summarize_team_tasks_def bind_prog_def return_prog_def)
qed

theorem summarize_team_tasks_bullet_count_witness:
  "\<exists>ls w'.
     summarize_team_bullets (\<lambda>n t. Inl (RequestException ''unreachable''))
       [''Fixed the login page bug.'', '' Wrote the weekly report '']
       5 \<lparr>posted = [], slept = []\<rparr> = (Inr ls, w')
     \<and> summarize_team_tasks (\<lambda>n t. Inl (RequestException ''unreachable''))
       [''Fixed the login page bug.'', '' Wrote the weekly report '']
       5 \<lparr>posted = [], slept = []\<rparr> = (Inr (join [CHR 0x0A] ls), w')
     \<and> 1 \<le> length ls \<and> int (length ls) \<le> 5"
  by (rule summarize_team_tasks_bullet_count) simp_all

section \<open>The chunk stage on a failing call\<close>

lemma hf_post_two_failures:
  assumes "\<And>n. remote n text = Inl (RequestException m)"
  shows "hf_post remote text timeout 2 w =
     (Inl (RequestException m), w\<lparr>posted := posted w @ [text, text], slept := slept w @ [2]\<rparr>)"
proof -
  let ?w1 = "w\<lparr>posted := posted w @ [text], slept := slept w @ [2]\<rparr>"
  have "hf_post_loop remote text 2 1 w = hf_post_loop remote text 2 2 ?w1"
    by (rule hf_post_loop_retry [where m = m]) (simp_all add: assms)
  also have "\<dots> = (Inl (RequestException m), ?w1\<lparr>posted := posted ?w1 @ [text]\<rparr>)"
    by (rule hf_post_loop_last) (simp add: assms)
  finally show ?thesis
    by (simp add: hf_post_def)
qed

lemma hf_post_first_success:
  assumes "remote (length (posted w)) text = Inr j" and "1 \<le> max_retries"
  shows "hf_post remote text timeout max_retries w = (Inr j, w\<lparr>posted := posted w @ [text]\<rparr>)"
  unfolding hf_post_def by (rule hf_post_loop_success) (use assms in simp_all)

lemma chunk_loop_done:
  "length dedup \<le> i \<Longrightarrow> chunk_loop remote dedup i chunk_summaries w = (Inr chunk_summaries, w)"
  by (subst chunk_loop.simps) (simp add: return_prog_def)

lemma chunk_loop_single_failure:
  assumes "\<And>n t. remote n t = Inl (RequestException m)"
  shows "chunk_loop remote [x] 0 [] w =
     (Inr [x], w\<lparr>posted := posted w @ [x, x], slept := slept w @ [2]\<rparr>)"
proof -
  have post: "hf_post remote x 120 2 w =
      (Inl (RequestException m), w\<lparr>posted := posted w @ [x, x], slept := slept w @ [2]\<rparr>)"
    by (rule hf_post_two_failures) (rule assms)
  show ?thesis
    by (subst chunk_loop.simps)
       (simp add: post bind_prog_def try_except_def return_prog_def chunk_loop_done)
qed

lemma chunk_loop_single_no_text:
  assumes "\<And>n t. remote n t = Inr JNull"
  shows "chunk_loop remote [x] 0 [] w =
     (Inr [take 1000 x], w\<lparr>posted := posted w @ [x]\<rparr>)"
proof -
  have post: "hf_post remote x 120 2 w = (Inr JNull, w\<lparr>posted := posted w @ [x]\<rparr>)"
    by (rule hf_post_first_success) (simp_all add: assms)
  show ?thesis
    by (subst chunk_loop.simps)
       (simp add: post bind_prog_def try_except_def return_prog_def chunk_loop_done summary_or_def)
qed

text \<open>
  Claim C6 at a task of 1201 characters, which is its own deduplicated list and one chunk.
  When both attempts of the chunk's call fail, the chunk summary is the joined chunk
  itself, all 1201 characters of it: the handler appends \<open>" . ".join(chunk)\<close> and cuts
  nothing. When the call succeeds and yields no text, the other branch appends
  \<open>chunk_text[:1000]\<close>, 1000 characters.
\<close>

theorem chunk_loop_failure_not_truncated:
  "dedup_tasks [replicate 1201 (CHR ''a'')] = [replicate 1201 (CHR ''a'')]
   \<and> chunk_loop (\<lambda>n t. Inl (RequestException ''unreachable''))
        [replicate 1201 (CHR ''a'')] 0 [] \<lparr>posted = [], slept = []\<rparr> =
      (Inr [replicate 1201 (CHR ''a'')],
       \<lparr>posted = [replicate 1201 (CHR ''a''), replicate 1201 (CHR ''a'')], slept = [2]\<rparr>)
   \<and> length (replicate 1201 (CHR ''a'')) = 1201
   \<and> chunk_loop (\<lambda>n t. Inr JNull)
        [replicate 1201 (CHR ''a'')] 0 [] \<lparr>posted = [], slept = []\<rparr> =
      (Inr [replicate 1000 (CHR ''a'')], \<lparr>posted = [replicate 1201 (CHR ''a'')], slept = []\<rparr>)"
proof -
  have "strip (replicate 1201 (CHR ''a'')) = replicate 1201 (CHR ''a'')"
    by (rule strip_id) (simp add: isspace_def whitespace_chars_def)
  then have "dedup_tasks [replicate 1201 (CHR ''a'')] = [replicate 1201 (CHR ''a'')]"
    by (simp add: dedup_tasks_def dedup_step_def Let_def)
  moreover have "chunk_loop (\<lambda>n t. Inl (RequestException ''unreachable''))
        [replicate 1201 (CHR ''a'')] 0 [] \<lparr>posted = [], slept = []\<rparr> =
      (Inr [replicate 1201 (CHR ''a'')],
       \<lparr>posted = [replicate 1201 (CHR ''a''), replicate 1201 (CHR ''a'')], slept = [2]\<rparr>)"
    by (subst chunk_loop_single_failure [where m = "''unreachable''"]) simp_all
  moreover have "chunk_loop (\<lambda>n t. Inr JNull)
        [replicate 1201 (CHR ''a'')] 0 [] \<lparr>posted = [], slept = []\<rparr> =
      (Inr [replicate 1000 (CHR ''a'')], \<lparr>posted = [replicate 1201 (CHR ''a'')], slept = []\<rparr>)"
    by (subst chunk_loop_single_no_text) simp_all
  ultimately show ?thesis by simp
qed

end
